theory Spec2Isabelle
  imports Main
begin

section \<open>The inner core of a function-calling agent (mincore.py)\<close>

text \<open>
  A shallow embedding of \<^verbatim>\<open>src/agent/mincore.py\<close>: the schema deriver
  \<^verbatim>\<open>_generate_function_schemas\<close>, the registry \<^verbatim>\<open>_generate_function_map\<close>, the call
  extractor \<^verbatim>\<open>_extract_function_calls\<close> and \<^verbatim>\<open>MinCore.send_message\<close> with its function
  calling loop. Python forbids nothing about the leading underscore, Isabelle does: the
  three helpers keep their names without it.

  The calls of the logger are left out, the f-strings they are given are not where they
  can change a result: lines 228 and 232 format the arguments and the result of a call
  inside the \<^verbatim>\<open>try\<close>, and what \<^verbatim>\<open>str()\<close> raises there is caught like an exception
  of the tool. The other messages format a function name, the length of the function
  list, the message of a caught exception, which the model holds as a string, or the
  schemas that \<^verbatim>\<open>get_function_schema\<close> built, dictionaries of strings, lists and
  booleans that can always be printed. \<^verbatim>\<open>functools.lru_cache\<close> only memoises a
  function that is deterministic here, so the cached and the uncached function return the
  same value.
\<close>

subsection \<open>Python values\<close>

text \<open>
  The values the module handles without knowing their type: attributes of response items,
  decoded JSON, arguments and results of tools. \<open>PObj s\<close> stands for an object of any
  other type, named \<open>s\<close>. A \<^verbatim>\<open>dict\<close> keeps its insertion order: an association list.
\<close>

datatype pyval =
    PNone
  | PBool bool
  | PInt int
  | PStr string
  | PList "pyval list"
  | PDict "(pyval \<times> pyval) list"
  | PObj string

text \<open>
  Exceptions. \<open>PyException m\<close> is an instance of \<^verbatim>\<open>Exception\<close> (or of a subclass) whose
  \<^verbatim>\<open>str()\<close> is \<open>m\<close>; \<open>PyBaseException m\<close> is an instance of \<^verbatim>\<open>BaseException\<close> outside
  \<^verbatim>\<open>Exception\<close> (\<^verbatim>\<open>KeyboardInterrupt\<close>, \<^verbatim>\<open>SystemExit\<close>, \<^verbatim>\<open>GeneratorExit\<close>), which
  \<^verbatim>\<open>except Exception\<close> does not catch.
\<close>

datatype exn = PyException string | PyBaseException string

subsection \<open>What the module imports\<close>

text \<open>
  The standard library and the interpreter are not part of the repository; the model takes
  them as parameters.
  \<^item> \<open>str_other\<close>: \<^verbatim>\<open>str(x)\<close> for \<open>x\<close> that is not already a \<^verbatim>\<open>str\<close>; it raises what
    \<^verbatim>\<open>__str__\<close> or \<^verbatim>\<open>__repr__\<close> raises, and \<^verbatim>\<open>ValueError\<close> on an integer beyond
    the limit of the conversion;
  \<^item> \<open>truth_other\<close>: the truth value of an object that is not of a built-in type, which
    raises what its \<^verbatim>\<open>__bool__\<close> or \<^verbatim>\<open>__len__\<close> raises;
  \<^item> \<open>json_loads\<close>: \<^verbatim>\<open>json.loads\<close>, \<open>None\<close> when it raises (\<^verbatim>\<open>JSONDecodeError\<close>, an
    \<^verbatim>\<open>Exception\<close>);
  \<^item> \<open>json_dumps\<close>: \<^verbatim>\<open>json.dumps(x, default=str)\<close>, which raises for instance on a
    dictionary key it cannot encode;
  \<^item> \<open>none_membership_text\<close>: the message of the \<^verbatim>\<open>TypeError\<close> of \<^verbatim>\<open>name in None\<close>;
  \<^item> \<open>bad_kwargs_text\<close>: the message of the \<^verbatim>\<open>TypeError\<close> of \<^verbatim>\<open>f(**args)\<close> when
    \<open>args\<close> is not a mapping with string keys.
\<close>

record pylib =
  str_other :: "pyval \<Rightarrow> exn + string"
  truth_other :: "pyval \<Rightarrow> exn + bool"
  json_loads :: "string \<Rightarrow> pyval option"
  json_dumps :: "pyval \<Rightarrow> exn + string"
  none_membership_text :: string
  bad_kwargs_text :: "pyval \<Rightarrow> string"

text \<open>
  \<^verbatim>\<open>str(x)\<close>, also what an f-string makes of \<^verbatim>\<open>{x}\<close>: a string is its own
  \<^verbatim>\<open>str()\<close>, anything else may raise.
\<close>

definition py_str :: "pylib \<Rightarrow> pyval \<Rightarrow> exn + string" where
  "py_str L v = (case v of PStr s \<Rightarrow> Inr s | _ \<Rightarrow> str_other L v)"

text \<open>
  Truth value testing, as \<^verbatim>\<open>not name\<close> and \<^verbatim>\<open>a or b\<close> apply it. It cannot raise on
  the built-in types.
\<close>

fun truthy :: "pylib \<Rightarrow> pyval \<Rightarrow> exn + bool" where
  "truthy L PNone = Inr False"
| "truthy L (PBool b) = Inr b"
| "truthy L (PInt i) = Inr (i \<noteq> 0)"
| "truthy L (PStr s) = Inr (s \<noteq> [])"
| "truthy L (PList xs) = Inr (xs \<noteq> [])"
| "truthy L (PDict kvs) = Inr (kvs \<noteq> [])"
| "truthy L (PObj s) = truth_other L (PObj s)"

text \<open>
  \<^verbatim>\<open>a or b\<close> evaluates to \<open>a\<close> when \<open>a\<close> is true; only otherwise is \<open>b\<close> evaluated,
  and \<open>b\<close> here is what evaluating it gives.
\<close>

definition py_or :: "pylib \<Rightarrow> pyval \<Rightarrow> exn + pyval \<Rightarrow> exn + pyval" where
  "py_or L a b =
     (case truthy L a of
        Inl e \<Rightarrow> Inl e
      | Inr t \<Rightarrow> if t then Inr a else b)"

subsection \<open>Provider responses and pending calls\<close>

text \<open>
  An attribute as \<^verbatim>\<open>getattr(object, name, default)\<close> finds it: \<open>Absent\<close> when the
  object has none of that name (the read raises \<^verbatim>\<open>AttributeError\<close> and the default is
  taken), \<open>Present v\<close> when it has one with value \<open>v\<close> (possibly \<open>PNone\<close>), \<open>Raising e\<close>
  when reading it raises something else, as a property can.
\<close>

datatype 'a attr = Absent | Present 'a | Raising exn

record item =
  item_name :: "pyval attr"
  item_arguments :: "pyval attr"
  item_call_id :: "pyval attr"
  item_id :: "pyval attr"

text \<open>
  A response, with its attributes \<^verbatim>\<open>id\<close>, \<^verbatim>\<open>output_text\<close> and \<^verbatim>\<open>output\<close>. The first
  two are read as plain attributes of the provider's response object. \<open>resp_output\<close> is
  read by \<^verbatim>\<open>getattr\<close>; its value is \<open>None\<close> when it is not a \<^verbatim>\<open>list\<close>.
\<close>

record response =
  resp_id :: string
  resp_output_text :: string
  resp_output :: "item list option attr"

text \<open>The dictionary \<^verbatim>\<open>{"id": ..., "name": ..., "args": ...}\<close> of one extracted call.\<close>

record pending_call =
  pc_id :: string
  pc_name :: string
  pc_args :: pyval

text \<open>\<^verbatim>\<open>getattr(item, field, default)\<close>.\<close>

definition getattr :: "'a attr \<Rightarrow> 'a \<Rightarrow> exn + 'a" where
  "getattr field dflt =
     (case field of Absent \<Rightarrow> Inr dflt | Present v \<Rightarrow> Inr v | Raising e \<Rightarrow> Inl e)"

subsection \<open>The call extractor\<close>

text \<open>
  The \<^verbatim>\<open>if\<close>/\<^verbatim>\<open>elif\<close>/\<^verbatim>\<open>else\<close> on the type of \<^verbatim>\<open>arguments\<close> (lines 112-120); the
  \<^verbatim>\<open>try\<close> around \<^verbatim>\<open>json.loads\<close> replaces a failure by \<^verbatim>\<open>{}\<close>.
\<close>

definition parse_arguments :: "pylib \<Rightarrow> pyval \<Rightarrow> pyval" where
  "parse_arguments L arguments =
     (case arguments of
        PStr s \<Rightarrow> (case json_loads L s of None \<Rightarrow> PDict [] | Some v \<Rightarrow> v)
      | PDict kvs \<Rightarrow> PDict kvs
      | _ \<Rightarrow> PDict [])"

text \<open>
  The body of the \<^verbatim>\<open>for item in output\<close> loop (lines 104-122), statement by
  statement: \<open>Inr None\<close> is \<^verbatim>\<open>continue\<close>, \<open>Inr (Some c)\<close> is \<^verbatim>\<open>calls.append(c)\<close>,
  \<open>Inl e\<close> is an exception that nothing in the function catches. The two reads of
  line 105 and 106 come first, then the test of line 107, the reads and the truth test of
  line 110, the arguments, and the two conversions of line 122 in the order of the
  dictionary display.
\<close>

definition extract_item :: "pylib \<Rightarrow> item \<Rightarrow> exn + pending_call option" where
  "extract_item L it =
     (case getattr (item_name it) PNone of
        Inl e \<Rightarrow> Inl e
      | Inr name \<Rightarrow>
     (case getattr (item_arguments it) PNone of
        Inl e \<Rightarrow> Inl e
      | Inr arguments \<Rightarrow>
     (case truthy L name of
        Inl e \<Rightarrow> Inl e
      | Inr named \<Rightarrow>
          if \<not> named \<or> arguments = PNone then Inr None
          else
     (case getattr (item_call_id it) PNone of
        Inl e \<Rightarrow> Inl e
      | Inr a \<Rightarrow>
     (case py_or L a (getattr (item_id it) (PStr [])) of
        Inl e \<Rightarrow> Inl e
      | Inr call_id \<Rightarrow>
     (case (if call_id \<noteq> PNone then py_str L call_id else Inr []) of
        Inl e \<Rightarrow> Inl e
      | Inr id_str \<Rightarrow>
     (case py_str L name of
        Inl e \<Rightarrow> Inl e
      | Inr name_str \<Rightarrow>
          Inr (Some \<lparr>pc_id = id_str, pc_name = name_str,
                     pc_args = parse_arguments L arguments\<rparr>))))))))"

text \<open>The loop itself, with its accumulator \<^verbatim>\<open>calls\<close>.\<close>

fun extract_loop ::
  "pylib \<Rightarrow> pending_call list \<Rightarrow> item list \<Rightarrow> exn + pending_call list" where
  "extract_loop L calls [] = Inr calls"
| "extract_loop L calls (it # items) =
     (case extract_item L it of
        Inl e \<Rightarrow> Inl e
      | Inr None \<Rightarrow> extract_loop L calls items
      | Inr (Some c) \<Rightarrow> extract_loop L (calls @ [c]) items)"

text \<open>Lines 97-124: no call when \<^verbatim>\<open>output\<close> is missing or not a list.\<close>

definition extract_function_calls :: "pylib \<Rightarrow> response \<Rightarrow> exn + pending_call list" where
  "extract_function_calls L response =
     (case getattr (resp_output response) None of
        Inl e \<Rightarrow> Inl e
      | Inr None \<Rightarrow> Inr []
      | Inr (Some items) \<Rightarrow> extract_loop L [] items)"

subsection \<open>Tools, schemas and the registry\<close>

text \<open>
  A tool is a native function called with keyword arguments. It may do anything to the
  world outside (type \<open>'w\<close>) and returns a value or raises; it raises \<^verbatim>\<open>TypeError\<close>
  on a keyword it does not take.
\<close>

type_synonym kwargs = "(string \<times> pyval) list"

type_synonym 'w tool = "kwargs \<Rightarrow> 'w \<Rightarrow> (exn + pyval) \<times> 'w"

record 'w callable =
  fn_name :: string
  fn_call :: "'w tool"

text \<open>The dictionary that \<^verbatim>\<open>get_function_schema\<close> returns, keyed by strings.\<close>

type_synonym schema = "(string \<times> pyval) list"

text \<open>\<^verbatim>\<open>d[k] = v\<close>: an existing key keeps its place, a new one goes last.\<close>

fun dict_set :: "('k \<times> 'v) list \<Rightarrow> 'k \<Rightarrow> 'v \<Rightarrow> ('k \<times> 'v) list" where
  "dict_set [] k v = [(k, v)]"
| "dict_set ((k', v') # d) k v =
     (if k' = k then (k', v) # d else (k', v') # dict_set d k v)"

text \<open>
  \<^verbatim>\<open>_generate_function_schemas\<close> (lines 45-51). \<open>G\<close> is \<^verbatim>\<open>get_function_schema\<close> of
  the package \<^verbatim>\<open>function_schema\<close>, which inspects the signature and may raise; nothing
  in the loop catches what it raises.
\<close>

fun schemas_loop ::
  "('w callable \<Rightarrow> exn + schema) \<Rightarrow> schema list \<Rightarrow> 'w callable list \<Rightarrow> exn + schema list" where
  "schemas_loop G function_schemas [] = Inr function_schemas"
| "schemas_loop G function_schemas (f # fs) =
     (case G f of
        Inl e \<Rightarrow> Inl e
      | Inr schema \<Rightarrow>
          schemas_loop G (function_schemas @ [dict_set schema ''type'' (PStr ''function'')]) fs)"

definition generate_function_schemas ::
  "('w callable \<Rightarrow> exn + schema) \<Rightarrow> 'w callable list \<Rightarrow> exn + schema list" where
  "generate_function_schemas G function_list = schemas_loop G [] function_list"

text \<open>\<^verbatim>\<open>_generate_function_map\<close> (lines 61-64): a later function of the same name wins.\<close>

fun map_loop :: "(string \<rightharpoonup> 'w tool) \<Rightarrow> 'w callable list \<Rightarrow> (string \<rightharpoonup> 'w tool)" where
  "map_loop function_map [] = function_map"
| "map_loop function_map (f # fs) = map_loop (function_map(fn_name f \<mapsto> fn_call f)) fs"

definition generate_function_map :: "'w callable list \<Rightarrow> (string \<rightharpoonup> 'w tool)" where
  "generate_function_map function_list = map_loop Map.empty function_list"

subsection \<open>The provider client and the observable behaviour\<close>

text \<open>
  The keyword arguments of \<^verbatim>\<open>client.responses.create\<close>. \<^verbatim>\<open>tools\<close> is left out by
  \<^verbatim>\<open>_create_conversation\<close> and by the loop, and is \<^verbatim>\<open>None\<close> or the schema list in
  the request that carries the user message.
\<close>

datatype input_item =
    Message string string
  | FunctionCallOutput string string

datatype tools_arg = ToolsOmitted | ToolsNone | Tools "schema list"

record request =
  req_model :: string
  req_previous_response_id :: "string option"
  req_input :: "input_item list"
  req_tools :: tools_arg

text \<open>
  What the module does to the outside, in order: a submission to the provider with what
  came back, or the invocation of a tool with its keyword arguments. The trace is kept by
  the model to state how many submissions were made and what was executed.
\<close>

datatype event =
    Submit request "exn + response"
  | Invoke string kwargs

record 'w state =
  world :: 'w
  trace :: "event list"

text \<open>The instance: \<^verbatim>\<open>self.client\<close> (its \<^verbatim>\<open>responses.create\<close>), \<^verbatim>\<open>self.model\<close>,
  \<^verbatim>\<open>self.system_prompt\<close>.\<close>

record 'w mincore =
  client :: "request \<Rightarrow> 'w \<Rightarrow> (exn + response) \<times> 'w"
  model :: string
  system_prompt :: string

definition submit :: "'w mincore \<Rightarrow> request \<Rightarrow> 'w state \<Rightarrow> (exn + response) \<times> 'w state" where
  "submit self req s =
     (case client self req (world s) of
        (r, w') \<Rightarrow> (r, \<lparr>world = w', trace = trace s @ [Submit req r]\<rparr>))"

text \<open>\<^verbatim>\<open>_create_conversation\<close> (lines 161-165).\<close>

definition bootstrap_request :: "'w mincore \<Rightarrow> request" where
  "bootstrap_request self =
     \<lparr>req_model = model self, req_previous_response_id = None,
      req_input = [Message ''system'' (system_prompt self)], req_tools = ToolsOmitted\<rparr>"

definition create_conversation :: "'w mincore \<Rightarrow> 'w state \<Rightarrow> (exn + string) \<times> 'w state" where
  "create_conversation self s =
     (case submit self (bootstrap_request self) s of
        (Inl e, s') \<Rightarrow> (Inl e, s')
      | (Inr response, s') \<Rightarrow> (Inr (resp_id response), s'))"

subsection \<open>Executing one requested call\<close>

text \<open>
  \<^verbatim>\<open>f(**args)\<close> needs a mapping whose keys are strings; otherwise the call raises
  \<^verbatim>\<open>TypeError\<close> before \<open>f\<close> is entered.
\<close>

fun string_keys :: "(pyval \<times> pyval) list \<Rightarrow> kwargs option" where
  "string_keys [] = Some []"
| "string_keys ((PStr k, v) # kvs) =
     (case string_keys kvs of None \<Rightarrow> None | Some kw \<Rightarrow> Some ((k, v) # kw))"
| "string_keys (_ # kvs) = None"

fun kwargs_of :: "pyval \<Rightarrow> kwargs option" where
  "kwargs_of (PDict kvs) = string_keys kvs"
| "kwargs_of _ = None"

text \<open>
  \<^verbatim>\<open>function_map[name](**args)\<close> (line 231): the tool runs in the world and the
  invocation is recorded, unless the arguments cannot be passed as keywords.
\<close>

definition invoke ::
  "pylib \<Rightarrow> string \<Rightarrow> 'w tool \<Rightarrow> pyval \<Rightarrow> 'w state \<Rightarrow> (exn + pyval) \<times> 'w state" where
  "invoke L name f args s =
     (case kwargs_of args of
        None \<Rightarrow> (Inl (PyException (bad_kwargs_text L args)), s)
      | Some kw \<Rightarrow>
          (case f kw (world s) of
             (r, w') \<Rightarrow> (r, \<lparr>world = w', trace = trace s @ [Invoke name kw]\<rparr>)))"

text \<open>
  The body of the \<^verbatim>\<open>try\<close> (lines 228-232), statement by statement. Line 228 formats
  \<^verbatim>\<open>args\<close> into the log message before anything else, line 232 formats the result
  after the call; \<open>name\<close> is a string already. \<open>function_map\<close> is \<open>None\<close> when
  \<^verbatim>\<open>send_message\<close> got no functions: \<^verbatim>\<open>name not in None\<close> raises \<^verbatim>\<open>TypeError\<close>.
\<close>

definition call_function ::
  "pylib \<Rightarrow> (string \<rightharpoonup> 'w tool) option \<Rightarrow> string \<Rightarrow> pyval \<Rightarrow> 'w state \<Rightarrow> (exn + pyval) \<times> 'w state" where
  "call_function L function_map name args s =
     (case py_str L args of
        Inl e \<Rightarrow> (Inl e, s)
      | Inr args_text \<Rightarrow>
          (case function_map of
             None \<Rightarrow> (Inl (PyException (none_membership_text L)), s)
           | Some fm \<Rightarrow>
               (case fm name of
                  None \<Rightarrow> (Inl (PyException (''Unknown function: '' @ name)), s)
                | Some f \<Rightarrow>
                    (case invoke L name f args s of
                       (Inl e, s') \<Rightarrow> (Inl e, s')
                     | (Inr result, s') \<Rightarrow>
                         (case py_str L result of
                            Inl e \<Rightarrow> (Inl e, s')
                          | Inr result_text \<Rightarrow> (Inr result, s'))))))"

text \<open>The dictionary \<^verbatim>\<open>{"call_id": ..., "output": ...}\<close> of one result.\<close>

record call_result =
  cr_call_id :: string
  cr_output :: string

text \<open>\<^verbatim>\<open>{"error": str(e)}\<close> (line 235).\<close>

definition error_object :: "string \<Rightarrow> pyval" where
  "error_object m = PDict [(PStr ''error'', PStr m)]"

text \<open>Lines 238-239, outside the \<^verbatim>\<open>try\<close>: what the serialiser or \<^verbatim>\<open>str()\<close> raises
  is not caught.\<close>

definition package_result ::
  "pylib \<Rightarrow> string \<Rightarrow> pyval \<Rightarrow> 'w state \<Rightarrow> (exn + call_result) \<times> 'w state" where
  "package_result L call_id result s =
     (case (case result of
              PDict kvs \<Rightarrow> json_dumps L result
            | PList xs \<Rightarrow> json_dumps L result
            | _ \<Rightarrow> py_str L result) of
        Inl e \<Rightarrow> (Inl e, s)
      | Inr output_str \<Rightarrow> (Inr \<lparr>cr_call_id = call_id, cr_output = output_str\<rparr>, s))"

text \<open>
  The body of \<^verbatim>\<open>for call in function_calls\<close> (lines 223-239). \<^verbatim>\<open>except Exception\<close>
  turns an \<^verbatim>\<open>Exception\<close> into the error object and lets anything else through.
\<close>

definition execute_call ::
  "pylib \<Rightarrow> (string \<rightharpoonup> 'w tool) option \<Rightarrow> pending_call \<Rightarrow> 'w state \<Rightarrow> (exn + call_result) \<times> 'w state" where
  "execute_call L function_map call s =
     (case call_function L function_map (pc_name call) (pc_args call) s of
        (Inr result, s') \<Rightarrow> package_result L (pc_id call) result s'
      | (Inl (PyException m), s') \<Rightarrow> package_result L (pc_id call) (error_object m) s'
      | (Inl (PyBaseException m), s') \<Rightarrow> (Inl (PyBaseException m), s'))"

text \<open>The loop over the calls of one round, with its accumulator
  \<^verbatim>\<open>function_call_results\<close>; an exception that escapes ends it.\<close>

fun execute_calls ::
  "pylib \<Rightarrow> (string \<rightharpoonup> 'w tool) option \<Rightarrow> call_result list \<Rightarrow> pending_call list \<Rightarrow> 'w state
     \<Rightarrow> (exn + call_result list) \<times> 'w state" where
  "execute_calls L function_map results [] s = (Inr results, s)"
| "execute_calls L function_map results (call # calls) s =
     (case execute_call L function_map call s of
        (Inl e, s') \<Rightarrow> (Inl e, s')
      | (Inr r, s') \<Rightarrow> execute_calls L function_map (results @ [r]) calls s')"

subsection \<open>The function calling loop and send_message\<close>

definition format_results :: "call_result list \<Rightarrow> input_item list" where
  "format_results function_call_results =
     map (\<lambda>result. FunctionCallOutput (cr_call_id result) (cr_output result)) function_call_results"

definition round_request :: "'w mincore \<Rightarrow> response \<Rightarrow> call_result list \<Rightarrow> request" where
  "round_request self response function_call_results =
     \<lparr>req_model = model self, req_previous_response_id = Some (resp_id response),
      req_input = format_results function_call_results, req_tools = ToolsOmitted\<rparr>"

text \<open>
  \<^verbatim>\<open>for _ in range(max_function_rounds)\<close> (lines 213-251); the first argument counts the
  rounds that are left. With none left the response is returned as it is. The extraction
  of line 215 is outside the \<^verbatim>\<open>try\<close>: what it raises leaves the loop.
\<close>

fun function_calling_loop ::
  "pylib \<Rightarrow> 'w mincore \<Rightarrow> (string \<rightharpoonup> 'w tool) option \<Rightarrow> nat \<Rightarrow> response \<Rightarrow> 'w state
     \<Rightarrow> (exn + response) \<times> 'w state" where
  "function_calling_loop L self function_map 0 response s = (Inr response, s)"
| "function_calling_loop L self function_map (Suc n) response s =
     (case extract_function_calls L response of
        Inl e \<Rightarrow> (Inl e, s)
      | Inr function_calls \<Rightarrow>
          if function_calls = [] then (Inr response, s)
          else
            (case execute_calls L function_map [] function_calls s of
               (Inl e, s1) \<Rightarrow> (Inl e, s1)
             | (Inr function_call_results, s1) \<Rightarrow>
                 (case submit self (round_request self response function_call_results) s1 of
                    (Inl e, s2) \<Rightarrow> (Inl e, s2)
                  | (Inr response', s2) \<Rightarrow>
                      function_calling_loop L self function_map n response' s2)))"

text \<open>
  Lines 185-206 of \<^verbatim>\<open>send_message\<close>: the bootstrap when there is no handle, the schemas
  and the registry when there are functions, and the submission of the user message. It
  returns the response and the registry.
\<close>

definition prepare_functions ::
  "('w callable \<Rightarrow> exn + schema) \<Rightarrow> 'w callable list
     \<Rightarrow> exn + tools_arg \<times> (string \<rightharpoonup> 'w tool) option" where
  "prepare_functions G functions =
     (if functions \<noteq> [] then
        (case generate_function_schemas G functions of
           Inl e \<Rightarrow> Inl e
         | Inr function_schemas \<Rightarrow> Inr (Tools function_schemas, Some (generate_function_map functions)))
      else Inr (ToolsNone, None))"

definition user_request :: "'w mincore \<Rightarrow> string \<Rightarrow> string \<Rightarrow> tools_arg \<Rightarrow> request" where
  "user_request self previous_response_id user_message function_schemas =
     \<lparr>req_model = model self, req_previous_response_id = Some previous_response_id,
      req_input = [Message ''user'' user_message], req_tools = function_schemas\<rparr>"

definition first_response ::
  "('w callable \<Rightarrow> exn + schema) \<Rightarrow> 'w mincore \<Rightarrow> string \<Rightarrow> string option \<Rightarrow> 'w callable list
     \<Rightarrow> 'w state \<Rightarrow> (exn + response \<times> (string \<rightharpoonup> 'w tool) option) \<times> 'w state" where
  "first_response G self user_message previous_response_id functions s =
     (case (case previous_response_id of
              None \<Rightarrow> create_conversation self s
            | Some h \<Rightarrow> (Inr h, s)) of
        (Inl e, s1) \<Rightarrow> (Inl e, s1)
      | (Inr h, s1) \<Rightarrow>
          (case prepare_functions G functions of
             Inl e \<Rightarrow> (Inl e, s1)
           | Inr (function_schemas, function_map) \<Rightarrow>
               (case submit self (user_request self h user_message function_schemas) s1 of
                  (Inl e, s2) \<Rightarrow> (Inl e, s2)
                | (Inr response, s2) \<Rightarrow> (Inr (response, function_map), s2))))"

text \<open>Line 257: the pair \<^verbatim>\<open>(response.id, response.output_text)\<close> of the last
  response, or the exception that escaped the loop.\<close>

definition return_value :: "exn + response \<Rightarrow> exn + string \<times> string" where
  "return_value r =
     (case r of
        Inl e \<Rightarrow> Inl e
      | Inr response \<Rightarrow> Inr (resp_id response, resp_output_text response))"

text \<open>
  \<^verbatim>\<open>send_message\<close>: \<^verbatim>\<open>range(n)\<close> is empty for \<open>n \<le> 0\<close>, so the loop runs
  \<open>nat max_function_rounds\<close> rounds at most.
\<close>

definition send_message ::
  "pylib \<Rightarrow> ('w callable \<Rightarrow> exn + schema) \<Rightarrow> 'w mincore \<Rightarrow> string \<Rightarrow> string option
     \<Rightarrow> 'w callable list \<Rightarrow> int \<Rightarrow> 'w state \<Rightarrow> (exn + string \<times> string) \<times> 'w state" where
  "send_message L G self user_message previous_response_id functions max_function_rounds s =
     (case first_response G self user_message previous_response_id functions s of
        (Inl e, s1) \<Rightarrow> (Inl e, s1)
      | (Inr (response, function_map), s1) \<Rightarrow>
          (case function_calling_loop L self function_map (nat max_function_rounds) response s1 of
             (r, s2) \<Rightarrow> (return_value r, s2)))"

section \<open>The specification's vocabulary\<close>

text \<open>
  The definitions of this section follow the words of the specification, not the code;
  the theorems below compare them with the functions above.
\<close>

text \<open>An operation returns, or a read does not raise.\<close>

fun returns :: "exn + 'a \<Rightarrow> bool" where
  "returns (Inr x) = True"
| "returns (Inl e) = False"

definition unraised :: "'a attr \<Rightarrow> bool" where
  "unraised a = (case a of Raising e \<Rightarrow> False | _ \<Rightarrow> True)"

text \<open>A value is true in a boolean context; the string form of a value (empty where
  \<^verbatim>\<open>str()\<close> raises).\<close>

definition is_true :: "pylib \<Rightarrow> pyval \<Rightarrow> bool" where
  "is_true L v = (truthy L v = Inr True)"

definition text_of :: "pylib \<Rightarrow> pyval \<Rightarrow> string" where
  "text_of L v = (case py_str L v of Inl e \<Rightarrow> [] | Inr s \<Rightarrow> s)"

definition output_items :: "response \<Rightarrow> item list" where
  "output_items response =
     (case resp_output response of Present (Some items) \<Rightarrow> items | _ \<Rightarrow> [])"

text \<open>"An item qualifies as a call if it exposes a non-empty name and a non-null arguments
  value": the name is there and true in a boolean context, the arguments are there and
  not \<^verbatim>\<open>None\<close>.\<close>

definition qualifies :: "pylib \<Rightarrow> item \<Rightarrow> bool" where
  "qualifies L it =
     ((case item_name it of Present name \<Rightarrow> is_true L name | _ \<Rightarrow> False) \<and>
      (case item_arguments it of Present arguments \<Rightarrow> arguments \<noteq> PNone | _ \<Rightarrow> False))"

definition spec_name :: "pylib \<Rightarrow> item \<Rightarrow> string" where
  "spec_name L it = (case item_name it of Present name \<Rightarrow> text_of L name | _ \<Rightarrow> [])"

text \<open>"A JSON-encoded string (parsed; a parse failure yields an empty argument mapping) or
  an already-structured mapping (used as-is)", a \<^verbatim>\<open>dict\<close>; anything else gives the
  empty mapping.\<close>

definition spec_args :: "pylib \<Rightarrow> item \<Rightarrow> pyval" where
  "spec_args L it =
     (case item_arguments it of
        Present (PStr s) \<Rightarrow> (case json_loads L s of None \<Rightarrow> PDict [] | Some v \<Rightarrow> v)
      | Present (PDict kvs) \<Rightarrow> PDict kvs
      | _ \<Rightarrow> PDict [])"



text \<open>
  The identifier as the specification words it: the call-identifier field, the generic
  identifier field when that one is absent, the empty string when both are. A field
  whose value is \<^verbatim>\<open>None\<close> is read as absent.
\<close>

definition claimed_identifier :: "pylib \<Rightarrow> item \<Rightarrow> string" where
  "claimed_identifier L it =
     (case item_call_id it of
        Present PNone \<Rightarrow>
          (case item_id it of Present PNone \<Rightarrow> [] | Present u \<Rightarrow> text_of L u | _ \<Rightarrow> [])
      | Present v \<Rightarrow> text_of L v
      | _ \<Rightarrow> (case item_id it of Present PNone \<Rightarrow> [] | Present u \<Rightarrow> text_of L u | _ \<Rightarrow> []))"

text \<open>
  The identifier as the code computes it: the call-identifier field when it is there and
  true in a boolean context (so neither \<^verbatim>\<open>None\<close> nor empty), otherwise the generic
  identifier field, and the empty string when that one is absent or \<^verbatim>\<open>None\<close>.
\<close>

definition generic_identifier :: "pylib \<Rightarrow> item \<Rightarrow> string" where
  "generic_identifier L it =
     (case item_id it of Present PNone \<Rightarrow> [] | Present v \<Rightarrow> text_of L v | _ \<Rightarrow> [])"

definition call_identifier :: "pylib \<Rightarrow> item \<Rightarrow> string" where
  "call_identifier L it =
     (case item_call_id it of
        Present v \<Rightarrow> if is_true L v then text_of L v else generic_identifier L it
      | _ \<Rightarrow> generic_identifier L it)"

definition spec_call :: "pylib \<Rightarrow> item \<Rightarrow> pending_call" where
  "spec_call L it =
     \<lparr>pc_id = call_identifier L it, pc_name = spec_name L it, pc_args = spec_args L it\<rparr>"

text \<open>
  An item that can be read: reading its four fields does not raise, and neither do the
  truth test and \<^verbatim>\<open>str()\<close> of its name and of its two identifiers.
\<close>

definition readable_field :: "pylib \<Rightarrow> pyval attr \<Rightarrow> bool" where
  "readable_field L a =
     (case a of
        Absent \<Rightarrow> True
      | Present v \<Rightarrow> returns (truthy L v) \<and> returns (py_str L v)
      | Raising e \<Rightarrow> False)"

definition readable :: "pylib \<Rightarrow> item \<Rightarrow> bool" where
  "readable L it =
     (readable_field L (item_name it) \<and> unraised (item_arguments it) \<and>
      readable_field L (item_call_id it) \<and> readable_field L (item_id it))"

text \<open>
  The schema list when nothing is caught: the exception of the first function whose schema
  cannot be derived, if there is one.
\<close>

fun first_error :: "('a \<Rightarrow> exn + 'b) \<Rightarrow> 'a list \<Rightarrow> exn option" where
  "first_error G [] = None"
| "first_error G (f # fs) = (case G f of Inl e \<Rightarrow> Some e | Inr schema \<Rightarrow> first_error G fs)"

definition typed_schema :: "('w callable \<Rightarrow> exn + schema) \<Rightarrow> 'w callable \<Rightarrow> schema" where
  "typed_schema G f =
     (case G f of Inl e \<Rightarrow> [] | Inr schema \<Rightarrow> dict_set schema ''type'' (PStr ''function''))"

text \<open>The number of submissions to the provider among some events.\<close>

fun is_submit :: "event \<Rightarrow> bool" where
  "is_submit (Submit req r) = True"
| "is_submit (Invoke name kw) = False"

definition submissions :: "event list \<Rightarrow> nat" where
  "submissions evs = length (filter is_submit evs)"

text \<open>A submission whose input is the system prompt and nothing else.\<close>

fun system_prompt_only :: "'w mincore \<Rightarrow> event \<Rightarrow> bool" where
  "system_prompt_only self (Submit req r) =
     (req_input req = [Message ''system'' (system_prompt self)])"
| "system_prompt_only self (Invoke name kw) = False"

text \<open>A call result as the item that is sent back to the provider.\<close>

definition call_output :: "call_result \<Rightarrow> input_item" where
  "call_output r = FunctionCallOutput (cr_call_id r) (cr_output r)"


section \<open>Test doubles\<close>

text \<open>
  Small stand-ins for the library, the tools and the provider, on which the theorems are
  evaluated. The world is a counter of the tool invocations. Two objects cannot be
  printed: \<^verbatim>\<open>str()\<close> and \<^verbatim>\<open>repr()\<close> of the first raise \<^verbatim>\<open>ValueError\<close>, those of
  the second leave the interpreter.
\<close>

definition stub_obj_str :: "string \<Rightarrow> exn + string" where
  "stub_obj_str s =
     (if s = ''unprintable'' then Inl (PyException ''cannot be printed'')
      else if s = ''exiting'' then Inl (PyBaseException ''bye'')
      else Inr s)"

definition stub_str :: "pyval \<Rightarrow> exn + string" where
  "stub_str v =
     (case v of
        PNone \<Rightarrow> Inr ''None''
      | PBool b \<Rightarrow> Inr (if b then ''True'' else ''False'')
      | PInt i \<Rightarrow> Inr (if i = 42 then ''42'' else ''<int>'')
      | PStr s \<Rightarrow> Inr s
      | PList xs \<Rightarrow> Inr ''[...]''
      | PDict kvs \<Rightarrow>
          (case kvs of
             [] \<Rightarrow> Inr ''{}''
           | (k, PObj s) # rest \<Rightarrow>
               (case stub_obj_str s of Inl e \<Rightarrow> Inl e | Inr t \<Rightarrow> Inr ''{...}'')
           | _ \<Rightarrow> Inr ''{...}'')
      | PObj s \<Rightarrow> stub_obj_str s)"

definition stub_lib :: pylib where
  "stub_lib =
     \<lparr>str_other = stub_str,
      truth_other = (\<lambda>v. Inr True),
      json_loads = (\<lambda>s. if s = ''{}'' then Some (PDict [])
                         else if s = ''[1]'' then Some (PList [PInt 1])
                         else None),
      json_dumps = (\<lambda>v. case v of
                       PDict [(PStr k, PStr x)] \<Rightarrow> Inr (''{\"'' @ k @ ''\": \"'' @ x @ ''\"}'')
                     | _ \<Rightarrow> Inl (PyException ''stub: unsupported value'')),
      none_membership_text = ''argument of type 'NoneType' is not iterable'',
      bad_kwargs_text = (\<lambda>v. ''argument after ** must be a mapping with string keys'')\<rparr>"

definition reasoning_item :: item where
  "reasoning_item =
     \<lparr>item_name = Absent, item_arguments = Absent, item_call_id = Absent,
      item_id = Present (PStr ''rs_1'')\<rparr>"

definition call_item :: "string \<Rightarrow> string \<Rightarrow> pyval \<Rightarrow> item" where
  "call_item call_id name arguments =
     \<lparr>item_name = Present (PStr name), item_arguments = Present arguments,
      item_call_id = Present (PStr call_id), item_id = Present (PStr ''fc_1'')\<rparr>"

definition stub_response :: "string \<Rightarrow> item list \<Rightarrow> response" where
  "stub_response h items =
     \<lparr>resp_id = h, resp_output_text = ''text'', resp_output = Present (Some items)\<rparr>"

definition get_number :: "nat callable" where
  "get_number = \<lparr>fn_name = ''get_number'', fn_call = (\<lambda>kw w. (Inr (PInt 42), Suc w))\<rparr>"

definition opaque_builtin :: "nat callable" where
  "opaque_builtin = \<lparr>fn_name = ''opaque_builtin'', fn_call = (\<lambda>kw w. (Inr PNone, Suc w))\<rparr>"

text \<open>A schema deriver that cannot introspect \<open>opaque_builtin\<close>.\<close>

definition stub_schema :: "nat callable \<Rightarrow> exn + schema" where
  "stub_schema f =
     (if fn_name f = ''opaque_builtin'' then Inl (PyException ''no signature found'')
      else Inr [(''name'', PStr (fn_name f)), (''description'', PStr []),
                (''parameters'', PDict [])])"

text \<open>
  A provider that answers every request with the same output items, and names each
  response after the one it continues.
\<close>

definition stub_client :: "item list \<Rightarrow> request \<Rightarrow> nat \<Rightarrow> (exn + response) \<times> nat" where
  "stub_client items req w =
     (Inr (stub_response (case req_previous_response_id req of
                            None \<Rightarrow> ''resp''
                          | Some h \<Rightarrow> h @ ''+'') items), w)"

definition stub_core :: "item list \<Rightarrow> nat mincore" where
  "stub_core items =
     \<lparr>client = stub_client items, model = ''gpt-5-nano'', system_prompt = ''You are Baz.''\<rparr>"

text \<open>A tool that raises, and one that ends the interpreter: \<^verbatim>\<open>sys.exit("bye")\<close>
  raises \<^verbatim>\<open>SystemExit\<close>, which is not an \<^verbatim>\<open>Exception\<close>.\<close>

definition failing_tool :: "nat callable" where
  "failing_tool =
     \<lparr>fn_name = ''get_color'', fn_call = (\<lambda>kw w. (Inl (PyException ''no colors left''), Suc w))\<rparr>"


definition start :: "nat state" where
  "start = \<lparr>world = 0, trace = []\<rparr>"

text \<open>The registry of two tools, and the requests that the runs below are expected to
  submit, written out.\<close>

definition registry :: "(string \<rightharpoonup> nat tool) option" where
  "registry = Some (generate_function_map [get_number, failing_tool])"

definition system_request :: request where
  "system_request =
     \<lparr>req_model = ''gpt-5-nano'', req_previous_response_id = None,
      req_input = [Message ''system'' ''You are Baz.''], req_tools = ToolsOmitted\<rparr>"

definition hello_request :: "string \<Rightarrow> tools_arg \<Rightarrow> request" where
  "hello_request h tools =
     \<lparr>req_model = ''gpt-5-nano'', req_previous_response_id = Some h,
      req_input = [Message ''user'' ''hello''], req_tools = tools\<rparr>"

definition outputs_request :: "string \<Rightarrow> input_item list \<Rightarrow> request" where
  "outputs_request h outputs =
     \<lparr>req_model = ''gpt-5-nano'', req_previous_response_id = Some h,
      req_input = outputs, req_tools = ToolsOmitted\<rparr>"

definition get_number_schema :: schema where
  "get_number_schema =
     [(''name'', PStr ''get_number''), (''description'', PStr []),
      (''parameters'', PDict []), (''type'', PStr ''function'')]"

text \<open>
  A provider that requests \<^verbatim>\<open>get_number\<close> in every response and one that never
  requests a call. The run of \<^verbatim>\<open>send_message("hello", "resp", (get_number,), 2)\<close>
  against the first: the state after the user message, the events of the two rounds, the
  final state.
\<close>

definition pending :: "string \<Rightarrow> string \<Rightarrow> pending_call" where
  "pending call_id name = \<lparr>pc_id = call_id, pc_name = name, pc_args = PDict []\<rparr>"

definition busy_items :: "item list" where
  "busy_items = [call_item ''call_1'' ''get_number'' (PStr ''{}'')]"

definition busy :: "nat mincore" where
  "busy = stub_core busy_items"

definition quiet :: "nat mincore" where
  "quiet = stub_core [reasoning_item]"

definition busy_first :: "nat state" where
  "busy_first =
     \<lparr>world = 0,
      trace = [Submit (hello_request ''resp'' (Tools [get_number_schema]))
                 (Inr (stub_response ''resp+'' busy_items))]\<rparr>"

definition busy_rounds :: "event list" where
  "busy_rounds =
     [Invoke ''get_number'' [],
      Submit (outputs_request ''resp+'' [FunctionCallOutput ''call_1'' ''42''])
        (Inr (stub_response ''resp++'' busy_items)),
      Invoke ''get_number'' [],
      Submit (outputs_request ''resp++'' [FunctionCallOutput ''call_1'' ''42''])
        (Inr (stub_response ''resp+++'' busy_items))]"

definition busy_final :: "nat state" where
  "busy_final = \<lparr>world = 2, trace = trace busy_first @ busy_rounds\<rparr>"

text \<open>The final state of \<^verbatim>\<open>send_message("hello", None, (), 5)\<close> against the second
  provider, and the round of three calls that the first theorems of the dispatch loop are
  evaluated on.\<close>

definition quiet_final :: "nat state" where
  "quiet_final =
     \<lparr>world = 0,
      trace = [Submit system_request (Inr (stub_response ''resp'' [reasoning_item])),
               Submit (hello_request ''resp'' ToolsNone)
                 (Inr (stub_response ''resp+'' [reasoning_item]))]\<rparr>"

definition three_calls :: "string \<Rightarrow> response" where
  "three_calls second =
     stub_response ''resp_1''
       [call_item ''call_1'' ''get_number'' (PStr ''{}''),
        call_item ''call_2'' second (PStr ''{}''),
        call_item ''call_3'' ''get_number'' (PStr ''{}'')]"

definition three_outputs :: "string \<Rightarrow> request" where
  "three_outputs second_output =
     outputs_request ''resp_1''
       [FunctionCallOutput ''call_1'' ''42'',
        FunctionCallOutput ''call_2'' second_output,
        FunctionCallOutput ''call_3'' ''42'']"

section \<open>Evaluation\<close>

text \<open>The equations that evaluate the model on the test doubles.\<close>

lemmas stub_defs = stub_lib_def stub_str_def stub_obj_str_def stub_client_def stub_core_def
  stub_schema_def stub_response_def get_number_def failing_tool_def registry_def busy_def
  busy_items_def quiet_def start_def call_item_def reasoning_item_def system_request_def
  hello_request_def outputs_request_def pending_def three_calls_def three_outputs_def

lemmas extract_defs = extract_function_calls_def extract_item_def getattr_def py_or_def
  parse_arguments_def py_str_def

lemmas run_defs = execute_call_def call_function_def invoke_def package_result_def
  error_object_def py_str_def generate_function_map_def submit_def

lemmas send_defs = send_message_def first_response_def prepare_functions_def
  generate_function_schemas_def user_request_def round_request_def format_results_def
  create_conversation_def bootstrap_request_def return_value_def

section \<open>The call extractor\<close>

lemma returns_iff: "returns x = (\<exists>y. x = Inr y)"
  by (cases x) simp_all

lemma py_str_PStr: "py_str L (PStr s) = Inr s"
  by (simp add: py_str_def)

lemma spec_args_parse:
  "item_arguments it = Present arguments \<Longrightarrow> spec_args L it = parse_arguments L arguments"
  by (cases arguments) (simp_all add: spec_args_def parse_arguments_def)

lemma extract_item_returns:
  assumes "extract_item L it = Inr r"
  shows "r = (if qualifies L it then Some (spec_call L it) else None)"
  using assms
  by (auto simp: extract_item_def getattr_def py_or_def qualifies_def is_true_def spec_call_def
      call_identifier_def generic_identifier_def spec_name_def text_of_def spec_args_parse
      py_str_PStr
      split: attr.splits sum.splits if_splits pyval.splits)

lemma extract_item_readable: "readable L it \<Longrightarrow> returns (extract_item L it)"
  by (auto simp: extract_item_def readable_def readable_field_def unraised_def getattr_def
      py_or_def returns_iff py_str_PStr
      split: attr.splits sum.splits)

lemma extract_loop_acc:
  "extract_loop L calls items =
     (case extract_loop L [] items of Inl e \<Rightarrow> Inl e | Inr cs \<Rightarrow> Inr (calls @ cs))"
proof (induction items arbitrary: calls)
  case Nil
  show ?case by simp
next
  case (Cons it items)
  show ?case
  proof (cases "extract_item L it")
    case (Inl e)
    then show ?thesis by simp
  next
    case (Inr r)
    show ?thesis
    proof (cases r)
      case None
      with Inr show ?thesis using Cons.IH[of calls] by simp
    next
      case (Some c)
      with Inr show ?thesis
        using Cons.IH[of "calls @ [c]"] Cons.IH[of "[c]"]
        by (auto split: sum.splits)
    qed
  qed
qed


lemma extract_loop_returns:
  "extract_loop L [] items = Inr cs \<Longrightarrow> cs = map (spec_call L) (filter (qualifies L) items)"
proof (induction items arbitrary: cs)
  case Nil
  then show ?case by simp
next
  case (Cons it items)
  from Cons.prems obtain r where item: "extract_item L it = Inr r"
    by (auto split: sum.splits)
  have r: "r = (if qualifies L it then Some (spec_call L it) else None)"
    by (rule extract_item_returns[OF item])
  show ?case
  proof (cases "qualifies L it")
    case False
    with Cons.prems item r have "extract_loop L [] items = Inr cs" by simp
    with Cons.IH False show ?thesis by simp
  next
    case True
    with Cons.prems item r have "extract_loop L [spec_call L it] items = Inr cs" by simp
    then obtain cs' where rest: "extract_loop L [] items = Inr cs'"
      and cs: "cs = [spec_call L it] @ cs'"
      using extract_loop_acc[of L "[spec_call L it]" items] by (auto split: sum.splits)
    with Cons.IH[OF rest] True show ?thesis by simp
  qed
qed

lemma extract_loop_readable:
  "list_all (readable L) items \<Longrightarrow> returns (extract_loop L calls items)"
proof (induction items arbitrary: calls)
  case Nil
  show ?case by simp
next
  case (Cons it items)
  then have "returns (extract_item L it)" and rest: "list_all (readable L) items"
    by (simp_all add: extract_item_readable)
  then obtain r where "extract_item L it = Inr r"
    by (auto simp: returns_iff)
  with Cons.IH[OF rest] show ?case
    by (cases r) simp_all
qed

lemma extract_function_calls_returns:
  "extract_function_calls L response = Inr calls \<Longrightarrow>
     calls = map (spec_call L) (filter (qualifies L) (output_items response))"
  by (auto simp: extract_function_calls_def getattr_def output_items_def
      split: attr.splits option.splits dest: extract_loop_returns)

text \<open>
  Claim C5, as stated, fails: the extractor raises when reading a field of an item
  raises, and when \<^verbatim>\<open>str()\<close> of the name raises; only \<^verbatim>\<open>json.loads\<close> is inside a
  \<^verbatim>\<open>try\<close>.
\<close>

theorem extract_function_calls_counterexample:
  "extract_function_calls stub_lib
     (stub_response ''resp_1''
        [reasoning_item,
         \<lparr>item_name = Raising (PyException ''broken property''),
          item_arguments = Present (PStr ''{}''), item_call_id = Absent, item_id = Absent\<rparr>])
     = Inl (PyException ''broken property'') \<and>
   extract_function_calls stub_lib
     (stub_response ''resp_1''
        [\<lparr>item_name = Present (PObj ''unprintable''), item_arguments = Present (PStr ''{}''),
          item_call_id = Present (PStr ''call_1''), item_id = Absent\<rparr>])
     = Inl (PyException ''cannot be printed'')"
  by (simp add: extract_defs stub_defs)

text \<open>
  Claim C5, amended. For every response whose output and whose items can be read (no read
  of a field raises, and neither do the truth test and \<^verbatim>\<open>str()\<close> of the name and of the
  identifiers), the extractor does not raise: it returns, in the order of the output list,
  one pending call for each qualifying item and nothing for the others; the call's name
  is the string form of the item's, and its arguments are the parsed string (the empty
  mapping when parsing fails) or the \<^verbatim>\<open>dict\<close> itself.
\<close>

theorem extract_function_calls_spec:
  assumes "unraised (resp_output response)"
    and "list_all (readable L) (output_items response)"
  shows "\<exists>calls. extract_function_calls L response = Inr calls \<and>
           map pc_name calls = map (spec_name L) (filter (qualifies L) (output_items response)) \<and>
           map pc_args calls = map (spec_args L) (filter (qualifies L) (output_items response))"
proof -
  have "returns (extract_function_calls L response)"
    using assms
    by (auto simp: extract_function_calls_def getattr_def unraised_def output_items_def
        extract_loop_readable split: attr.splits option.splits)
  then obtain calls where calls: "extract_function_calls L response = Inr calls"
    by (auto simp: returns_iff)
  then have "calls = map (spec_call L) (filter (qualifies L) (output_items response))"
    by (rule extract_function_calls_returns)
  then have "map pc_name calls = map (spec_name L) (filter (qualifies L) (output_items response))"
    and "map pc_args calls = map (spec_args L) (filter (qualifies L) (output_items response))"
    by (simp_all add: spec_call_def comp_def)
  with calls show ?thesis by blast
qed

theorem extract_function_calls_spec_witness:
  "extract_function_calls stub_lib
     (stub_response ''resp_1''
        [reasoning_item, call_item ''call_1'' ''get_number'' (PStr ''{}''),
         call_item ''call_2'' ''get_color'' (PStr ''{oops'')])
     = Inr [\<lparr>pc_id = ''call_1'', pc_name = ''get_number'', pc_args = PDict []\<rparr>,
            \<lparr>pc_id = ''call_2'', pc_name = ''get_color'', pc_args = PDict []\<rparr>]"
proof -
  have h1: "unraised (resp_output (stub_response ''resp_1''
        [reasoning_item, call_item ''call_1'' ''get_number'' (PStr ''{}''),
         call_item ''call_2'' ''get_color'' (PStr ''{oops'')]))"
    by (simp add: unraised_def stub_defs)
  have h2: "list_all (readable stub_lib) (output_items (stub_response ''resp_1''
        [reasoning_item, call_item ''call_1'' ''get_number'' (PStr ''{}''),
         call_item ''call_2'' ''get_color'' (PStr ''{oops'')]))"
    by (simp add: output_items_def readable_def readable_field_def unraised_def py_str_def
        stub_defs)
  show ?thesis
    using extract_function_calls_spec [OF h1 h2]
    by (simp add: extract_defs stub_defs)
qed

text \<open>
  Claim C6, as the specification words it, fails: an item whose call-identifier field is
  there but empty gets the generic identifier, not the empty call identifier.
\<close>

theorem call_identifier_counterexample:
  "extract_function_calls stub_lib
     (stub_response ''resp_1''
        [\<lparr>item_name = Present (PStr ''get_number''), item_arguments = Present (PStr ''{}''),
          item_call_id = Present (PStr []), item_id = Present (PStr ''fc_1'')\<rparr>])
     = Inr [\<lparr>pc_id = ''fc_1'', pc_name = ''get_number'', pc_args = PDict []\<rparr>] \<and>
   map (claimed_identifier stub_lib) (filter (qualifies stub_lib) (output_items
     (stub_response ''resp_1''
        [\<lparr>item_name = Present (PStr ''get_number''), item_arguments = Present (PStr ''{}''),
          item_call_id = Present (PStr []), item_id = Present (PStr ''fc_1'')\<rparr>])))
     = [[]]"
  by (simp add: extract_defs stub_defs output_items_def qualifies_def is_true_def
      claimed_identifier_def text_of_def)

text \<open>
  Claim C6, amended. The identifier of each pending call that the extractor returns is the
  string form of the item's call-identifier field when that field is there and true in a
  boolean context (neither \<^verbatim>\<open>None\<close> nor empty); otherwise it is the string form of the
  generic identifier field, and the empty string when that field is absent or
  \<^verbatim>\<open>None\<close>.
\<close>

theorem call_identifier_fallback:
  assumes "extract_function_calls L response = Inr calls"
  shows "map pc_id calls
           = map (call_identifier L) (filter (qualifies L) (output_items response))"
proof -
  have calls: "calls = map (spec_call L) (filter (qualifies L) (output_items response))"
    using assms by (rule extract_function_calls_returns)
  have ids: "map pc_id (map (spec_call L) items) = map (call_identifier L) items" for items
    by (simp add: spec_call_def comp_def)
  show ?thesis
    unfolding calls by (rule ids)
qed

theorem call_identifier_fallback_witness:
  "map pc_id
     [\<lparr>pc_id = ''call_1'', pc_name = ''a'', pc_args = PDict []\<rparr>,
      \<lparr>pc_id = ''fc_2'', pc_name = ''b'', pc_args = PDict []\<rparr>,
      \<lparr>pc_id = ''fc_3'', pc_name = ''c'', pc_args = PDict []\<rparr>,
      \<lparr>pc_id = [], pc_name = ''d'', pc_args = PDict []\<rparr>]
   = map (call_identifier stub_lib) (filter (qualifies stub_lib) (output_items
       (stub_response ''resp_1''
          [call_item ''call_1'' ''a'' (PStr ''{}''),
           \<lparr>item_name = Present (PStr ''b''), item_arguments = Present (PStr ''{}''),
            item_call_id = Present (PStr []), item_id = Present (PStr ''fc_2'')\<rparr>,
           \<lparr>item_name = Present (PStr ''c''), item_arguments = Present (PStr ''{}''),
            item_call_id = Absent, item_id = Present (PStr ''fc_3'')\<rparr>,
           \<lparr>item_name = Present (PStr ''d''), item_arguments = Present (PStr ''{}''),
            item_call_id = Absent, item_id = Absent\<rparr>])))"
proof -
  have h: "extract_function_calls stub_lib
       (stub_response ''resp_1''
          [call_item ''call_1'' ''a'' (PStr ''{}''),
           \<lparr>item_name = Present (PStr ''b''), item_arguments = Present (PStr ''{}''),
            item_call_id = Present (PStr []), item_id = Present (PStr ''fc_2'')\<rparr>,
           \<lparr>item_name = Present (PStr ''c''), item_arguments = Present (PStr ''{}''),
            item_call_id = Absent, item_id = Present (PStr ''fc_3'')\<rparr>,
           \<lparr>item_name = Present (PStr ''d''), item_arguments = Present (PStr ''{}''),
            item_call_id = Absent, item_id = Absent\<rparr>])
     = Inr [\<lparr>pc_id = ''call_1'', pc_name = ''a'', pc_args = PDict []\<rparr>,
            \<lparr>pc_id = ''fc_2'', pc_name = ''b'', pc_args = PDict []\<rparr>,
            \<lparr>pc_id = ''fc_3'', pc_name = ''c'', pc_args = PDict []\<rparr>,
            \<lparr>pc_id = [], pc_name = ''d'', pc_args = PDict []\<rparr>]"
    by (simp add: extract_defs stub_defs)
  show ?thesis
    by (rule call_identifier_fallback [OF h])
qed



section \<open>The schema deriver\<close>

lemma schemas_loop_eq:
  "schemas_loop G function_schemas fs =
     (case first_error G fs of
        Some e \<Rightarrow> Inl e
      | None \<Rightarrow> Inr (function_schemas @ map (typed_schema G) fs))"
  by (induction fs arbitrary: function_schemas)
     (auto simp: typed_schema_def split: sum.splits option.splits)

text \<open>
  Claim C4 fails: when the schema of one function cannot be derived, the exception leaves
  \<^verbatim>\<open>_generate_function_schemas\<close> and no schema list is returned, also not for the
  functions whose schema could be derived.
\<close>

theorem generate_function_schemas_counterexample:
  "generate_function_schemas stub_schema [get_number, opaque_builtin]
     = Inl (PyException ''no signature found'')"
  by (simp add: generate_function_schemas_def stub_schema_def get_number_def opaque_builtin_def)

text \<open>
  Claim C4, amended. The schema deriver catches nothing. When \<^verbatim>\<open>get_function_schema\<close>
  raises for a function of the list, the deriver raises that exception (of the first such
  function) and returns no list; when it raises for none, the deriver returns one schema
  for each definition, in the order of the list, which is the derived schema with its
  \<^verbatim>\<open>type\<close> set to \<^verbatim>\<open>function\<close>.
\<close>

theorem generate_function_schemas_propagates:
  "generate_function_schemas G function_list =
     (case first_error G function_list of
        Some e \<Rightarrow> Inl e
      | None \<Rightarrow> Inr (map (typed_schema G) function_list))"
proof (cases "first_error G function_list")
  case None
  then show ?thesis
    by (simp add: generate_function_schemas_def schemas_loop_eq)
next
  case (Some e)
  then show ?thesis
    by (simp add: generate_function_schemas_def schemas_loop_eq)
qed

theorem generate_function_schemas_propagates_witness:
  "generate_function_schemas stub_schema [get_number] =
     Inr [[(''name'', PStr ''get_number''), (''description'', PStr []),
           (''parameters'', PDict []), (''type'', PStr ''function'')]]"
  using generate_function_schemas_propagates [of stub_schema "[get_number]"]
  by (simp add: typed_schema_def stub_schema_def get_number_def)

section \<open>The dispatch loop\<close>

subsection \<open>Executing the calls of a round\<close>

lemma execute_calls_acc:
  "execute_calls L fm results calls s =
     (case execute_calls L fm [] calls s of
        (Inl e, s') \<Rightarrow> (Inl e, s')
      | (Inr rs, s') \<Rightarrow> (Inr (results @ rs), s'))"
proof (induction calls arbitrary: results s)
  case Nil
  show ?case by simp
next
  case (Cons call calls)
  obtain r s1 where step: "execute_call L fm call s = (r, s1)"
    by (cases "execute_call L fm call s")
  show ?case
  proof (cases r)
    case (Inl e)
    with step show ?thesis by simp
  next
    case (Inr cr)
    with step show ?thesis
      using Cons.IH[of "results @ [cr]" s1] Cons.IH[of "[cr]" s1]
      by (auto split: prod.splits sum.splits)
  qed
qed

lemma execute_calls_append:
  "execute_calls L fm results (xs @ ys) s =
     (case execute_calls L fm results xs s of
        (Inl e, s') \<Rightarrow> (Inl e, s')
      | (Inr rs, s') \<Rightarrow> execute_calls L fm rs ys s')"
  by (induction xs arbitrary: results s) (auto split: prod.splits sum.splits)

lemma round_step:
  assumes "execute_calls L fm [] before s = (Inr results, s1)"
    and "execute_call L fm call s1 = (Inr r, s2)"
  shows "execute_calls L fm [] (before @ call # after) s =
     (case execute_calls L fm [] after s2 of
        (Inl e, s') \<Rightarrow> (Inl e, s')
      | (Inr rs, s') \<Rightarrow> (Inr (results @ r # rs), s'))"
proof -
  have "execute_calls L fm [] (before @ call # after) s
          = execute_calls L fm (results @ [r]) after s2"
    using assms by (simp add: execute_calls_append)
  also have "\<dots> = (case execute_calls L fm [] after s2 of
        (Inl e, s') \<Rightarrow> (Inl e, s')
      | (Inr rs, s') \<Rightarrow> (Inr ((results @ [r]) @ rs), s'))"
    by (rule execute_calls_acc)
  finally show ?thesis by (simp split: prod.splits sum.splits)
qed

text \<open>
  One round of the loop in which a call gets the result \<open>r\<close>: the results of the round
  are submitted together, \<open>r\<close> at the place of its call, and the loop goes on with the
  response.
\<close>

lemma round_with_result:
  assumes calls: "extract_function_calls L response = Inr (before @ call # after)"
    and before: "execute_calls L fm [] before s = (Inr results, s1)"
    and call: "execute_call L fm call s1 = (Inr r, s1')"
    and after: "execute_calls L fm [] after s1' = (Inr results', s2)"
    and req: "req = \<lparr>req_model = model self, req_previous_response_id = Some (resp_id response),
                      req_input = map call_output results @ call_output r # map call_output results',
                      req_tools = ToolsOmitted\<rparr>"
    and answer: "client self req (world s2) = (x, w)"
  shows "function_calling_loop L self fm (Suc n) response s =
     (case x of
        Inl e \<Rightarrow> (Inl e, \<lparr>world = w, trace = trace s2 @ [Submit req x]\<rparr>)
      | Inr response' \<Rightarrow>
          function_calling_loop L self fm n response' \<lparr>world = w, trace = trace s2 @ [Submit req x]\<rparr>)"
proof -
  have all: "execute_calls L fm [] (before @ call # after) s = (Inr (results @ r # results'), s2)"
    using round_step[OF before call, of after] after by simp
  have rq: "round_request self response (results @ r # results') = req"
    by (simp add: req round_request_def format_results_def call_output_def)
  have sub: "submit self req s2 = (x, \<lparr>world = w, trace = trace s2 @ [Submit req x]\<rparr>)"
    using answer by (simp add: submit_def)
  show ?thesis
    using calls all rq sub by (simp split: sum.splits)
qed

text \<open>
  Claim C2, as stated, fails for a call whose arguments cannot be formatted: line 228
  formats them into the log message inside the \<^verbatim>\<open>try\<close>, before the lookup, and the
  exception of \<^verbatim>\<open>str()\<close> is what the call result reports, not the unknown function.
\<close>

theorem unknown_function_counterexample:
  "generate_function_map [get_number, failing_tool] ''get_weather'' = None \<and>
   function_calling_loop stub_lib quiet registry (Suc 0)
     (stub_response ''resp_1''
        [call_item ''call_1'' ''get_weather'' (PDict [(PStr ''x'', PObj ''unprintable'')])]) start
   = (Inr (stub_response ''resp_1+'' [reasoning_item]),
      \<lparr>world = 0,
       trace = [Submit (outputs_request ''resp_1''
                          [FunctionCallOutput ''call_1'' ''{\"error\": \"cannot be printed\"}''])
                  (Inr (stub_response ''resp_1+'' [reasoning_item]))]\<rparr>)"
  by (simp add: extract_defs run_defs stub_defs round_request_def format_results_def)

text \<open>
  Claim C2, amended. With a registry (the functions were not empty), a pending call of the
  round whose arguments can be formatted (\<^verbatim>\<open>str()\<close> of them returns) and whose name is
  not in the registry gets a call result that carries the call's identifier and whose
  output is the JSON text of the object \<^verbatim>\<open>{"error": "Unknown function: <name>"}\<close>, that
  is, what \<^verbatim>\<open>json.dumps\<close> returns for it. No tool runs for it and the state does not
  change. The loop goes on: when the other calls of the round let no exception escape,
  the loop submits the results of the calls before, this one and those of the calls
  after, in that order, as one request that continues the response, and carries on with
  the provider's answer.
\<close>

theorem unknown_function_error:
  assumes "extract_function_calls L response = Inr (before @ call # after)"
    and "function_map = Some fm" and "fm (pc_name call) = None"
    and "py_str L (pc_args call) = Inr args_text"
    and "json_dumps L (PDict [(PStr ''error'', PStr (''Unknown function: '' @ pc_name call))])
           = Inr output_str"
    and "execute_calls L function_map [] before s = (Inr results, s1)"
    and "execute_calls L function_map [] after s1 = (Inr results', s2)"
    and "req = \<lparr>req_model = model self, req_previous_response_id = Some (resp_id response),
                req_input = map call_output results @ FunctionCallOutput (pc_id call) output_str
                              # map call_output results',
                req_tools = ToolsOmitted\<rparr>"
    and "client self req (world s2) = (x, w)"
  shows "execute_call L function_map call s1
           = (Inr \<lparr>cr_call_id = pc_id call, cr_output = output_str\<rparr>, s1) \<and>
         function_calling_loop L self function_map (Suc n) response s =
           (case x of
              Inl e \<Rightarrow> (Inl e, \<lparr>world = w, trace = trace s2 @ [Submit req x]\<rparr>)
            | Inr response' \<Rightarrow>
                function_calling_loop L self function_map n response'
                  \<lparr>world = w, trace = trace s2 @ [Submit req x]\<rparr>)"
proof -
  have step: "execute_call L function_map call s1
                = (Inr \<lparr>cr_call_id = pc_id call, cr_output = output_str\<rparr>, s1)"
    using assms(2-5)
    by (simp add: execute_call_def call_function_def package_result_def error_object_def)
  have req: "req = \<lparr>req_model = model self, req_previous_response_id = Some (resp_id response),
                req_input = map call_output results
                  @ call_output \<lparr>cr_call_id = pc_id call, cr_output = output_str\<rparr>
                  # map call_output results',
                req_tools = ToolsOmitted\<rparr>"
    using assms(8) by (simp add: call_output_def)
  show ?thesis
    using step round_with_result[OF assms(1) assms(6) step assms(7) req assms(9)] by simp
qed

theorem unknown_function_error_witness:
  "function_calling_loop stub_lib quiet registry (Suc 0) (three_calls ''get_weather'') start
   = (Inr (stub_response ''resp_1+'' [reasoning_item]),
      \<lparr>world = 2,
       trace = [Invoke ''get_number'' [], Invoke ''get_number'' [],
                Submit (three_outputs ''{\"error\": \"Unknown function: get_weather\"}'')
                  (Inr (stub_response ''resp_1+'' [reasoning_item]))]\<rparr>)"
proof -
  have h1: "extract_function_calls stub_lib (three_calls ''get_weather'')
              = Inr ([pending ''call_1'' ''get_number''] @ pending ''call_2'' ''get_weather''
                       # [pending ''call_3'' ''get_number''])"
    by (simp add: extract_defs stub_defs)
  have h2: "registry = Some (generate_function_map [get_number, failing_tool])"
    by (simp add: registry_def)
  have h3: "generate_function_map [get_number, failing_tool]
              (pc_name (pending ''call_2'' ''get_weather'')) = None"
    by (simp add: run_defs stub_defs)
  have h4: "py_str stub_lib (pc_args (pending ''call_2'' ''get_weather'')) = Inr ''{}''"
    by (simp add: run_defs stub_defs)
  have h5: "json_dumps stub_lib
              (PDict [(PStr ''error'',
                       PStr (''Unknown function: '' @ pc_name (pending ''call_2'' ''get_weather'')))])
            = Inr ''{\"error\": \"Unknown function: get_weather\"}''"
    by (simp add: run_defs stub_defs)
  have h6: "execute_calls stub_lib registry [] [pending ''call_1'' ''get_number''] start
            = (Inr [\<lparr>cr_call_id = ''call_1'', cr_output = ''42''\<rparr>],
               \<lparr>world = 1, trace = [Invoke ''get_number'' []]\<rparr>)"
    by (simp add: run_defs stub_defs)
  have h7: "execute_calls stub_lib registry [] [pending ''call_3'' ''get_number'']
              \<lparr>world = 1, trace = [Invoke ''get_number'' []]\<rparr>
            = (Inr [\<lparr>cr_call_id = ''call_3'', cr_output = ''42''\<rparr>],
               \<lparr>world = 2, trace = [Invoke ''get_number'' [], Invoke ''get_number'' []]\<rparr>)"
    by (simp add: run_defs stub_defs)
  have h8: "three_outputs ''{\"error\": \"Unknown function: get_weather\"}''
            = \<lparr>req_model = model quiet,
               req_previous_response_id = Some (resp_id (three_calls ''get_weather'')),
               req_input = map call_output [\<lparr>cr_call_id = ''call_1'', cr_output = ''42''\<rparr>]
                 @ FunctionCallOutput (pc_id (pending ''call_2'' ''get_weather''))
                     ''{\"error\": \"Unknown function: get_weather\"}''
                 # map call_output [\<lparr>cr_call_id = ''call_3'', cr_output = ''42''\<rparr>],
               req_tools = ToolsOmitted\<rparr>"
    by (simp add: call_output_def stub_defs)
  have h9: "client quiet (three_outputs ''{\"error\": \"Unknown function: get_weather\"}'')
              (world \<lparr>world = 2, trace = [Invoke ''get_number'' [], Invoke ''get_number'' []]\<rparr>)
            = (Inr (stub_response ''resp_1+'' [reasoning_item]), 2)"
    by (simp add: stub_defs)
  have "function_calling_loop stub_lib quiet registry (Suc 0) (three_calls ''get_weather'') start
        = function_calling_loop stub_lib quiet registry 0 (stub_response ''resp_1+'' [reasoning_item])
            \<lparr>world = 2,
             trace = [Invoke ''get_number'' [], Invoke ''get_number'' [],
                      Submit (three_outputs ''{\"error\": \"Unknown function: get_weather\"}'')
                        (Inr (stub_response ''resp_1+'' [reasoning_item]))]\<rparr>"
    using unknown_function_error [OF h1 h2 h3 h4 h5 h6 h7 h8 h9, of 0]
    by (simp del: function_calling_loop.simps)
  then show ?thesis by simp
qed








subsection \<open>The events of the loop\<close>

lemma submit_trace: "submit self req s = (r, s') \<Longrightarrow> trace s' = trace s @ [Submit req r]"
  by (auto simp: submit_def split: prod.splits)

lemma package_result_state: "package_result L call_id result s = (r, s') \<Longrightarrow> s' = s"
  by (auto simp: package_result_def split: sum.splits)

lemma call_function_trace:
  "call_function L fm name args s = (r, s') \<Longrightarrow>
     \<exists>evs. trace s' = trace s @ evs \<and> filter is_submit evs = []"
  by (auto simp: call_function_def invoke_def split: option.splits prod.splits sum.splits)

lemma execute_call_trace:
  assumes "execute_call L fm call s = (r, s')"
  shows "\<exists>evs. trace s' = trace s @ evs \<and> filter is_submit evs = []"
proof -
  obtain x s1 where cf: "call_function L fm (pc_name call) (pc_args call) s = (x, s1)"
    by (cases "call_function L fm (pc_name call) (pc_args call) s")
  have "s' = s1"
    using assms cf
    by (auto simp: execute_call_def split: sum.splits exn.splits dest: package_result_state)
  with call_function_trace[OF cf] show ?thesis by simp
qed

lemma execute_calls_trace:
  "execute_calls L fm results calls s = (r, s') \<Longrightarrow>
     \<exists>evs. trace s' = trace s @ evs \<and> filter is_submit evs = []"
proof (induction calls arbitrary: results s)
  case Nil
  then show ?case by simp
next
  case (Cons call calls)
  obtain x s1 where step: "execute_call L fm call s = (x, s1)"
    by (cases "execute_call L fm call s")
  from execute_call_trace[OF step] obtain evs1
    where t1: "trace s1 = trace s @ evs1" and n1: "filter is_submit evs1 = []" by blast
  show ?case
  proof (cases x)
    case (Inl e)
    with Cons.prems step have "s' = s1" by simp
    with t1 n1 show ?thesis by blast
  next
    case (Inr cr)
    with Cons.prems step have "execute_calls L fm (results @ [cr]) calls s1 = (r, s')" by simp
    from Cons.IH[OF this] obtain evs2
      where t2: "trace s' = trace s1 @ evs2" and n2: "filter is_submit evs2 = []" by blast
    have "trace s' = trace s @ (evs1 @ evs2)" "filter is_submit (evs1 @ evs2) = []"
      using t1 t2 n1 n2 by simp_all
    then show ?thesis by blast
  qed
qed

lemma loop_submissions:
  "function_calling_loop L self fm n response s = (r, s') \<Longrightarrow>
     \<exists>evs. trace s' = trace s @ evs \<and> submissions evs \<le> n \<and>
       (submissions evs = n \<longrightarrow>
          (evs = [] \<and> r = Inr response) \<or> (\<exists>evs0 req. evs = evs0 @ [Submit req r]))"
proof (induction n arbitrary: response s)
  case 0
  then show ?case by (simp add: submissions_def)
next
  case (Suc n)
  show ?case
  proof (cases "extract_function_calls L response")
    case (Inl e)
    with Suc.prems have "s' = s" by simp
    then show ?thesis by (intro exI[of _ "[]"]) (simp add: submissions_def)
  next
    case extracted: (Inr calls)
    show ?thesis
    proof (cases "calls = []")
      case True
      with Suc.prems extracted have "r = Inr response" "s' = s" by simp_all
      then show ?thesis by (intro exI[of _ "[]"]) (simp add: submissions_def)
    next
      case False
      obtain rc s1 where ex: "execute_calls L fm [] calls s = (rc, s1)"
        by (cases "execute_calls L fm [] calls s")
      from execute_calls_trace[OF ex] obtain evs1
        where t1: "trace s1 = trace s @ evs1" and n1: "filter is_submit evs1 = []" by blast
      show ?thesis
      proof (cases rc)
        case (Inl e)
        with Suc.prems extracted False ex have "s' = s1" by simp
        with t1 n1 show ?thesis by (intro exI[of _ evs1]) (simp add: submissions_def)
      next
        case (Inr results)
        let ?req = "round_request self response results"
        obtain x s2 where sub: "submit self ?req s1 = (x, s2)"
          by (cases "submit self ?req s1")
        have t2: "trace s2 = trace s1 @ [Submit ?req x]"
          by (rule submit_trace[OF sub])
        show ?thesis
        proof (cases x)
          case failed: (Inl e)
          with Suc.prems extracted False ex Inr sub have "r = x" "s' = s2" by simp_all
          with t1 t2 n1 show ?thesis
            by (intro exI[of _ "evs1 @ [Submit ?req x]"]) (auto simp: submissions_def)
        next
          case answered: (Inr response1)
          with Suc.prems extracted False ex Inr sub
          have loop: "function_calling_loop L self fm n response1 s2 = (r, s')" by simp
          from Suc.IH[OF loop] obtain evs2
            where t3: "trace s' = trace s2 @ evs2" and b: "submissions evs2 \<le> n"
              and lim: "submissions evs2 = n \<longrightarrow>
                 (evs2 = [] \<and> r = Inr response1) \<or> (\<exists>evs0 req. evs2 = evs0 @ [Submit req r])"
            by blast
          let ?evs = "evs1 @ Submit ?req x # evs2"
          have tr: "trace s' = trace s @ ?evs" using t1 t2 t3 by simp
          have cnt: "submissions ?evs = Suc (submissions evs2)"
            using n1 by (simp add: submissions_def)
          have "\<exists>evs0 req. ?evs = evs0 @ [Submit req r]" if "submissions ?evs = Suc n"
          proof -
            from that cnt have "submissions evs2 = n" by simp
            with lim consider "evs2 = []" "r = Inr response1"
              | evs0 req where "evs2 = evs0 @ [Submit req r]" by blast
            then show ?thesis
            proof cases
              case 1
              with answered have "?evs = evs1 @ [Submit ?req r]" by simp
              then show ?thesis by blast
            next
              case 2
              then have "?evs = (evs1 @ Submit ?req x # evs0) @ [Submit req r]" by simp
              then show ?thesis by blast
            qed
          qed
          with tr cnt b show ?thesis by (intro exI[of _ ?evs]) simp
        qed
      qed
    qed
  qed
qed

text \<open>
  Claim C1. Whatever the first response and the number \<open>N\<close> of rounds allowed, the loop
  inside \<^verbatim>\<open>send_message\<close> submits at most \<open>N\<close> times to the provider after the user
  message (not at all for \<open>N \<le> 0\<close>). When it has submitted \<open>N\<close> times the limit is
  reached: the last thing it did is the \<open>N\<close>-th submission, no tool runs after it, and
  \<^verbatim>\<open>send_message\<close> returns the identifier and the text of the response to that
  submission, whether or not that response requests calls (or ends with the exception of
  that submission; for \<open>N \<le> 0\<close> it returns the first response).
\<close>

theorem round_limit:
  assumes "first_response G self user_message previous_response_id functions s
             = (Inr (response, function_map), s1)"
    and "send_message L G self user_message previous_response_id functions max_function_rounds s
             = (result, s2)"
  shows "\<exists>evs. trace s2 = trace s1 @ evs \<and> submissions evs \<le> nat max_function_rounds \<and>
           (submissions evs = nat max_function_rounds \<longrightarrow>
              (evs = [] \<and> result = Inr (resp_id response, resp_output_text response)) \<or>
              (\<exists>evs0 req r. evs = evs0 @ [Submit req r] \<and> result = return_value r))"
proof -
  obtain r where loop:
    "function_calling_loop L self function_map (nat max_function_rounds) response s1 = (r, s2)"
    and res: "result = return_value r"
    using assms by (auto simp: send_message_def split: prod.splits)
  from loop_submissions[OF loop] obtain evs
    where "trace s2 = trace s1 @ evs" "submissions evs \<le> nat max_function_rounds"
      "submissions evs = nat max_function_rounds \<longrightarrow>
          (evs = [] \<and> r = Inr response) \<or> (\<exists>evs0 req. evs = evs0 @ [Submit req r])"
    by blast
  with res show ?thesis
    by (intro exI[of _ evs]) (auto simp: return_value_def)
qed

theorem round_limit_witness:
  "first_response stub_schema busy ''hello'' (Some ''resp'') [get_number] start
     = (Inr (stub_response ''resp+'' busy_items, Some (generate_function_map [get_number])),
        busy_first) \<and>
   send_message stub_lib stub_schema busy ''hello'' (Some ''resp'') [get_number] 2 start
     = (Inr (''resp+++'', ''text''), busy_final) \<and>
   submissions busy_rounds = 2 \<and>
   extract_function_calls stub_lib (stub_response ''resp+++'' busy_items)
     = Inr [pending ''call_1'' ''get_number''] \<and>
   (\<exists>evs. trace busy_final = trace busy_first @ evs \<and>
      submissions evs \<le> nat 2 \<and>
      (submissions evs = nat 2 \<longrightarrow>
         (evs = [] \<and>
          Inr (''resp+++'', ''text'')
            = Inr (resp_id (stub_response ''resp+'' busy_items),
                   resp_output_text (stub_response ''resp+'' busy_items))) \<or>
         (\<exists>evs0 req r. evs = evs0 @ [Submit req r] \<and> Inr (''resp+++'', ''text'') = return_value r)))"
proof -
  have h1: "first_response stub_schema busy ''hello'' (Some ''resp'') [get_number] start
     = (Inr (stub_response ''resp+'' busy_items, Some (generate_function_map [get_number])),
        busy_first)"
    by (simp add: send_defs submit_def stub_defs busy_first_def get_number_schema_def)
  have h2: "send_message stub_lib stub_schema busy ''hello'' (Some ''resp'') [get_number] 2 start
     = (Inr (''resp+++'', ''text''), busy_final)"
    by (simp add: send_defs extract_defs run_defs stub_defs busy_first_def busy_rounds_def
        busy_final_def get_number_schema_def eval_nat_numeral)
  have h3: "submissions busy_rounds = 2"
    by (simp add: submissions_def busy_rounds_def)
  have h4: "extract_function_calls stub_lib (stub_response ''resp+++'' busy_items)
              = Inr [pending ''call_1'' ''get_number'']"
    by (simp add: extract_defs stub_defs)
  show ?thesis
    using h1 h2 h3 h4 round_limit [OF h1 h2] by blast
qed

text \<open>
  Claim C7. When the response to the user message has no qualifying call item,
  \<^verbatim>\<open>send_message\<close> returns the identifier and the text of that response and leaves the
  state as it was when the response arrived: no further submission, no tool invoked.
\<close>

theorem no_calls_no_submission:
  assumes "first_response G self user_message previous_response_id functions s
             = (Inr (response, function_map), s1)"
    and "extract_function_calls L response = Inr []"
  shows "send_message L G self user_message previous_response_id functions max_function_rounds s
           = (Inr (resp_id response, resp_output_text response), s1)"
  using assms
  by (cases "nat max_function_rounds") (simp_all add: send_message_def return_value_def)

theorem no_calls_no_submission_witness:
  "send_message stub_lib stub_schema quiet ''hello'' (Some ''resp'') [] 5 start
     = (Inr (''resp+'', ''text''),
        \<lparr>world = 0,
         trace = [Submit (hello_request ''resp'' ToolsNone)
                    (Inr (stub_response ''resp+'' [reasoning_item]))]\<rparr>)"
proof -
  have h1: "first_response stub_schema quiet ''hello'' (Some ''resp'') [] start
     = (Inr (stub_response ''resp+'' [reasoning_item], None),
        \<lparr>world = 0,
         trace = [Submit (hello_request ''resp'' ToolsNone)
                    (Inr (stub_response ''resp+'' [reasoning_item]))]\<rparr>)"
    by (simp add: send_defs submit_def stub_defs)
  have h2: "extract_function_calls stub_lib (stub_response ''resp+'' [reasoning_item]) = Inr []"
    by (simp add: extract_defs stub_defs)
  show ?thesis
    using no_calls_no_submission [OF h1 h2, where max_function_rounds = 5]
    by (simp add: stub_defs)
qed

lemma system_prompt_only_submit: "system_prompt_only self ev \<Longrightarrow> is_submit ev"
  by (cases ev) simp_all

lemma no_submit_no_bootstrap:
  "filter is_submit evs = [] \<Longrightarrow> filter (system_prompt_only self) evs = []"
  by (induction evs) (auto split: if_splits dest: system_prompt_only_submit)

lemma round_request_not_bootstrap:
  "\<not> system_prompt_only self (Submit (round_request self response results) x)"
  by (cases results) (simp_all add: round_request_def format_results_def)

lemma loop_no_bootstrap:
  "function_calling_loop L self fm n response s = (r, s') \<Longrightarrow>
     \<exists>evs. trace s' = trace s @ evs \<and> filter (system_prompt_only self) evs = []"
proof (induction n arbitrary: response s)
  case 0
  then show ?case by simp
next
  case (Suc n)
  show ?case
  proof (cases "extract_function_calls L response")
    case (Inl e)
    with Suc.prems show ?thesis by simp
  next
    case extracted: (Inr calls)
    show ?thesis
    proof (cases "calls = []")
      case True
      with Suc.prems extracted show ?thesis by simp
    next
      case False
      obtain rc s1 where ex: "execute_calls L fm [] calls s = (rc, s1)"
        by (cases "execute_calls L fm [] calls s")
      from execute_calls_trace[OF ex] obtain evs1
        where t1: "trace s1 = trace s @ evs1" and "filter is_submit evs1 = []" by blast
      then have n1: "filter (system_prompt_only self) evs1 = []"
        by (simp add: no_submit_no_bootstrap)
      show ?thesis
      proof (cases rc)
        case (Inl e)
        with Suc.prems extracted False ex have "s' = s1" by simp
        with t1 n1 show ?thesis by blast
      next
        case (Inr results)
        let ?req = "round_request self response results"
        obtain x s2 where sub: "submit self ?req s1 = (x, s2)"
          by (cases "submit self ?req s1")
        have t2: "trace s2 = trace s1 @ [Submit ?req x]"
          by (rule submit_trace[OF sub])
        have "\<exists>evs2. trace s' = trace s2 @ evs2 \<and> filter (system_prompt_only self) evs2 = []"
        proof (cases x)
          case failed: (Inl e)
          with Suc.prems extracted False ex Inr sub have "s' = s2" by simp
          then show ?thesis by simp
        next
          case answered: (Inr response1)
          with Suc.prems extracted False ex Inr sub
          have "function_calling_loop L self fm n response1 s2 = (r, s')" by simp
          then show ?thesis by (rule Suc.IH)
        qed
        then obtain evs2 where t3: "trace s' = trace s2 @ evs2"
          and n2: "filter (system_prompt_only self) evs2 = []" by blast
        have "trace s' = trace s @ (evs1 @ Submit ?req x # evs2)"
          using t1 t2 t3 by simp
        moreover have "filter (system_prompt_only self) (evs1 @ Submit ?req x # evs2) = []"
          using n1 n2 round_request_not_bootstrap[of self response results x] by simp
        ultimately show ?thesis by blast
      qed
    qed
  qed
qed

lemma prepare_functions_eq:
  "prepare_functions G functions =
     (case first_error G functions of
        Some e \<Rightarrow> Inl e
      | None \<Rightarrow>
          Inr (if functions = [] then ToolsNone else Tools (map (typed_schema G) functions),
               if functions = [] then None else Some (generate_function_map functions)))"
proof (cases "functions = []")
  case True
  then show ?thesis by (simp add: prepare_functions_def)
next
  case False
  then show ?thesis
    by (simp add: prepare_functions_def generate_function_schemas_def schemas_loop_eq
        del: schemas_loop.simps first_error.simps split: option.splits)
qed

text \<open>
  Claim C8, as stated, fails: the schemas are derived between the bootstrap and the user
  message, and when that raises (or the bootstrap does) the user message is never
  submitted.
\<close>

theorem bootstrap_then_message_counterexample:
  "send_message stub_lib stub_schema quiet ''hello'' None [opaque_builtin] 5 start
   = (Inl (PyException ''no signature found''),
      \<lparr>world = 0,
       trace = [Submit system_request (Inr (stub_response ''resp'' [reasoning_item]))]\<rparr>)"
  by (simp add: send_defs submit_def stub_defs opaque_builtin_def)

text \<open>
  Claim C8, amended. Without a previous response identifier, the first thing
  \<^verbatim>\<open>send_message\<close> does is one submission whose input is the system prompt alone, with
  no previous response; no later submission of the call has that input. When the provider
  answers it and deriving the schemas of the functions does not raise, the next event is
  the submission of the user message, a request of its own whose input is the user
  message alone and which continues the identifier of the bootstrap's response. When the
  bootstrap submission or the derivation of the schemas raises, nothing more is submitted
  and \<^verbatim>\<open>send_message\<close> ends with that exception.
\<close>

theorem bootstrap_then_message:
  assumes "send_message L G self user_message None functions max_function_rounds s = (result, s')"
  shows "\<exists>r0 rest.
           trace s' = trace s @
             Submit \<lparr>req_model = model self, req_previous_response_id = None,
                     req_input = [Message ''system'' (system_prompt self)],
                     req_tools = ToolsOmitted\<rparr> r0 # rest \<and>
           filter (system_prompt_only self) rest = [] \<and>
           (case r0 of
              Inl e \<Rightarrow> rest = [] \<and> result = Inl e
            | Inr b \<Rightarrow>
                (case first_error G functions of
                   Some e \<Rightarrow> rest = [] \<and> result = Inl e
                 | None \<Rightarrow>
                     (\<exists>r1 rest'. rest =
                        Submit \<lparr>req_model = model self,
                                req_previous_response_id = Some (resp_id b),
                                req_input = [Message ''user'' user_message],
                                req_tools = (if functions = [] then ToolsNone
                                             else Tools (map (typed_schema G) functions))\<rparr> r1
                          # rest')))"
proof -
  let ?boot = "\<lparr>req_model = model self, req_previous_response_id = None,
                req_input = [Message ''system'' (system_prompt self)],
                req_tools = ToolsOmitted\<rparr>"
  have bq: "bootstrap_request self = ?boot"
    by (simp add: bootstrap_request_def)
  obtain r0 sa where boot: "submit self ?boot s = (r0, sa)"
    by (cases "submit self ?boot s")
  have ta: "trace sa = trace s @ [Submit ?boot r0]"
    by (rule submit_trace[OF boot])
  show ?thesis
  proof (cases r0)
    case (Inl e)
    with assms boot bq have "s' = sa" "result = Inl e"
      by (simp_all add: send_message_def first_response_def create_conversation_def)
    with ta Inl show ?thesis
      by (intro exI[of _ r0] exI[of _ "[]"]) simp
  next
    case (Inr b)
    show ?thesis
    proof (cases "first_error G functions")
      case (Some e)
      then have "prepare_functions G functions = Inl e"
        by (simp add: prepare_functions_eq)
      with assms boot bq Inr have "s' = sa" "result = Inl e"
        by (simp_all add: send_message_def first_response_def create_conversation_def)
      with ta Inr Some show ?thesis
        by (intro exI[of _ r0] exI[of _ "[]"]) simp
    next
      case None
      let ?tools = "if functions = [] then ToolsNone else Tools (map (typed_schema G) functions)"
      let ?fm = "if functions = [] then None else Some (generate_function_map functions)"
      let ?req = "\<lparr>req_model = model self, req_previous_response_id = Some (resp_id b),
                   req_input = [Message ''user'' user_message], req_tools = ?tools\<rparr>"
      have prep: "prepare_functions G functions = Inr (?tools, ?fm)"
        using None by (simp add: prepare_functions_eq)
      have uq: "user_request self (resp_id b) user_message ?tools = ?req"
        by (simp add: user_request_def)
      obtain r1 sb where usr: "submit self ?req sa = (r1, sb)"
        by (cases "submit self ?req sa")
      have tb: "trace sb = trace sa @ [Submit ?req r1]"
        by (rule submit_trace[OF usr])
      have user: "\<not> system_prompt_only self (Submit ?req r1)"
        by simp
      have first: "first_response G self user_message None functions s
                     = (case r1 of Inl e \<Rightarrow> (Inl e, sb) | Inr response \<Rightarrow> (Inr (response, ?fm), sb))"
        using boot bq Inr prep uq usr
        by (simp add: first_response_def create_conversation_def split: sum.splits)
      have "\<exists>evs. trace s' = trace sb @ evs \<and> filter (system_prompt_only self) evs = []"
      proof (cases r1)
        case (Inl e)
        with assms first have "s' = sb"
          by (simp add: send_message_def)
        then show ?thesis by simp
      next
        case answered: (Inr response)
        with assms first obtain r where
          "function_calling_loop L self ?fm (nat max_function_rounds) response sb = (r, s')"
          by (auto simp: send_message_def split: prod.splits)
        then show ?thesis by (rule loop_no_bootstrap)
      qed
      then obtain evs where te: "trace s' = trace sb @ evs"
        and ne: "filter (system_prompt_only self) evs = []" by blast
      have "trace s' = trace s @ Submit ?boot r0 # (Submit ?req r1 # evs)"
        using ta tb te by simp
      moreover have "filter (system_prompt_only self) (Submit ?req r1 # evs) = []"
        using user ne by simp
      ultimately show ?thesis
        using Inr None by (intro exI[of _ r0] exI[of _ "Submit ?req r1 # evs"]) simp
    qed
  qed
qed

theorem bootstrap_then_message_witness:
  "send_message stub_lib stub_schema quiet ''hello'' None [] 5 start
     = (Inr (''resp+'', ''text''), quiet_final) \<and>
   (\<exists>r0 rest.
      trace quiet_final = trace start @
        Submit \<lparr>req_model = model quiet, req_previous_response_id = None,
                req_input = [Message ''system'' (system_prompt quiet)],
                req_tools = ToolsOmitted\<rparr> r0 # rest \<and>
      filter (system_prompt_only quiet) rest = [] \<and>
      (case r0 of
         Inl e \<Rightarrow> rest = [] \<and> Inr (''resp+'', ''text'') = Inl e
       | Inr b \<Rightarrow>
           (case first_error stub_schema [] of
              Some e \<Rightarrow> rest = [] \<and> Inr (''resp+'', ''text'') = Inl e
            | None \<Rightarrow>
                (\<exists>r1 rest'. rest =
                   Submit \<lparr>req_model = model quiet,
                           req_previous_response_id = Some (resp_id b),
                           req_input = [Message ''user'' ''hello''],
                           req_tools = (if ([]::nat callable list) = [] then ToolsNone
                                        else Tools (map (typed_schema stub_schema) []))\<rparr> r1
                     # rest'))))"
proof -
  have h: "send_message stub_lib stub_schema quiet ''hello'' None [] 5 start
     = (Inr (''resp+'', ''text''), quiet_final)"
    by (simp add: send_defs extract_defs submit_def stub_defs quiet_final_def eval_nat_numeral)
  show ?thesis
    using h bootstrap_then_message [OF h] by blast
qed

end
